theory Spec2Isabelle
  imports Main "HOL-Library.Word"
begin

section \<open>JavaScript strings\<close>

text \<open>
  A JavaScript string is a sequence of 16-bit code units; \<open>length\<close> counts code
  units. ASCII literals of the source are written through \<open>asc\<close>; the Ukrainian
  literals are given by their code units.
\<close>

type_synonym char16 = "16 word"
type_synonym js_string = "char16 list"

definition asc :: "string \<Rightarrow> js_string" where
  "asc s = map of_char s"

text \<open>Truthiness of a value that is \<open>null\<close>/\<open>undefined\<close> (\<open>None\<close>) or a string.\<close>

fun truthy :: "js_string option \<Rightarrow> bool" where
  "truthy None = False"
| "truthy (Some s) = (s \<noteq> [])"

section \<open>Theme manager\<close>













section \<open>Elements, nodes and effects\<close>

text \<open>
  An element of the page with the properties the script reads and writes.
  \<open>tagName\<close> is the upper-case name the DOM reports for an HTML element;
  \<open>attrs\<close> are the content attributes (\<open>getAttribute\<close>, attribute selectors),
  \<open>dataset\<close> the \<open>data-*\<close> attributes by their camel-case key;
  \<open>href\<close> and \<open>type_prop\<close> are the properties \<open>.href\<close> and \<open>.type\<close>,
  \<open>None\<close> where the element has no such property (\<open>undefined\<close>).
  \<open>node_id\<close> tells the elements of a page apart, and \<open>form_owner\<close> is the
  property \<open>.form\<close> of a control: the \<open>node_id\<close> of the form that owns it (its
  nearest ancestor form, or the form its \<open>form\<close> attribute names), \<open>None\<close> for
  \<open>null\<close>.
\<close>

record element =
  tagName :: js_string
  attrs :: "js_string \<rightharpoonup> js_string"
  dataset :: "js_string \<rightharpoonup> js_string"
  classList :: "js_string list"
  disabled :: bool
  hidden :: bool
  innerHTML :: js_string
  href :: "js_string option"
  type_prop :: "js_string option"
  node_id :: nat
  form_owner :: "nat option"

definition blank :: "string \<Rightarrow> element" where
  "blank tag =
     \<lparr>tagName = asc tag, attrs = Map.empty, dataset = Map.empty, classList = [],
      disabled = False, hidden = False, innerHTML = [], href = None, type_prop = None,
      node_id = 0, form_owner = None\<rparr>"

text \<open>
  A node is an element together with its ancestors, the parent first.
  \<open>closest\<close> is \<open>Element.closest\<close>: the node itself or its nearest ancestor that
  matches, \<open>None\<close> for \<open>null\<close>.
\<close>

type_synonym node = "element \<times> element list"

fun closest :: "(element \<Rightarrow> bool) \<Rightarrow> node \<Rightarrow> node option" where
  "closest sel (e, []) = (if sel e then Some (e, []) else None)"
| "closest sel (e, p # ps) = (if sel e then Some (e, p # ps) else closest sel (p, ps))"

text \<open>
  What a handler does to the browser besides changing the modelled state: the calls
  it makes, in the order it makes them. Setting the location, the calls of the event
  (\<open>preventDefault\<close>), of the dialog (\<open>show\<close>, \<open>hide\<close>) and of the search
  input (\<open>focus\<close>, \<open>select\<close>) are taken to return normally. A call of
  \<open>requestSubmit\<close> can throw; \<open>RequestSubmit form submitter\<close> stands for a call
  that returned, that is, for the submission of \<open>form\<close> requested with that
  submitter.
\<close>

datatype exn = TypeError | NotFoundError | URIError | FetchFailed | SearchError | JsonFailed

datatype action =
    Navigate js_string
  | PreventDefault
  | RequestSubmit element element
  | ModalShow
  | ModalHide
  | Focus
  | Select

section \<open>Submit loading state\<close>

definition saving_label :: js_string where
  "saving_label =
     [0x0417, 0x0431, 0x0435, 0x0440, 0x0435, 0x0436, 0x0435, 0x043D, 0x043D, 0x044F,
      0x002E, 0x002E, 0x002E]"

text \<open>\<open>classList.add\<close>: a token list holds a token once.\<close>

definition classList_add :: "js_string \<Rightarrow> js_string list \<Rightarrow> js_string list" where
  "classList_add c cs = (if c \<in> set cs then cs else cs @ [c])"

text \<open>The template literal that becomes the content of the button.\<close>

definition loading_html :: "js_string \<Rightarrow> js_string" where
  \<open>loading_html label =
     asc ''<span class="btn-spinner"></span><span class="btn-label">'' @ label @ asc ''</span>''\<close>

fun setButtonLoadingState :: "element option \<Rightarrow> element option" where
  "setButtonLoadingState None = None"
| \<open>setButtonLoadingState (Some button) =
     (if dataset button (asc ''loadingBound'') = Some (asc ''1'') then Some button
      else
        let bound = button\<lparr>dataset := (dataset button)(asc ''loadingBound'' \<mapsto> asc ''1'')\<rparr>;
            label = (case dataset bound (asc ''loadingText'') of
                       None \<Rightarrow> saving_label
                     | Some t \<Rightarrow> if t \<noteq> [] then t else saving_label)
        in Some (bound
             \<lparr>classList := classList_add (asc ''btn-loading'') (classList bound),
              disabled := True,
              innerHTML := loading_html label\<rparr>))\<close>

text \<open>ASCII lower case, as selectors compare the value of a \<open>type\<close> attribute.\<close>

definition ascii_lower :: "js_string \<Rightarrow> js_string" where
  "ascii_lower s = map (\<lambda>c. if 0x41 \<le> c \<and> c \<le> 0x5A then c + 0x20 else c) s"

text \<open>
  The selector \<open>button[type="submit"],input[type="submit"]\<close>, and
  \<open>querySelector\<close> over the descendants of a form in tree order: the position of
  the first match.
\<close>

definition submit_selector :: "element \<Rightarrow> bool" where
  "submit_selector e =
     ((tagName e = asc ''BUTTON'' \<or> tagName e = asc ''INPUT'') \<and>
      (case attrs e (asc ''type'') of
         None \<Rightarrow> False
       | Some t \<Rightarrow> ascii_lower t = asc ''submit''))"

fun querySelector :: "(element \<Rightarrow> bool) \<Rightarrow> element list \<Rightarrow> nat option" where
  "querySelector sel [] = None"
| "querySelector sel (e # es) =
     (if sel e then Some 0 else map_option Suc (querySelector sel es))"

text \<open>
  The \<open>submit\<close> listener that \<open>initLoadingButtons\<close> binds to a form, on the
  form's descendants.
\<close>

definition form_submit :: "element list \<Rightarrow> element list" where
  "form_submit form =
     (case querySelector submit_selector form of
        None \<Rightarrow> form
      | Some i \<Rightarrow>
          (case setButtonLoadingState (Some (form ! i)) of
             None \<Rightarrow> form
           | Some b \<Rightarrow> form[i := b]))"

section \<open>Row click\<close>

text \<open>The selector \<open>a,button,input,select,textarea,label\<close> on an HTML element.\<close>

definition interactive :: "element \<Rightarrow> bool" where
  "interactive e =
     (tagName e \<in> set (map asc [''A'', ''BUTTON'', ''INPUT'', ''SELECT'', ''TEXTAREA'', ''LABEL'']))"

text \<open>
  The click listener of a row; \<open>target\<close> is \<open>event.target\<close> and \<open>row\<close> the
  element the listener was bound to.
\<close>

definition row_click :: "element \<Rightarrow> node \<Rightarrow> action list" where
  "row_click row target =
     (if closest interactive target \<noteq> None then []
      else
        (case attrs row (asc ''data-row-link'') of
           None \<Rightarrow> []
         | Some h \<Rightarrow> if h \<noteq> [] then [Navigate h] else []))"

section \<open>Confirm modal\<close>

definition default_prompt :: js_string where
  "default_prompt =
     [0x0412, 0x0438, 0x0020, 0x0432, 0x043F, 0x0435, 0x0432, 0x043D, 0x0435, 0x043D,
      0x0456, 0x002C, 0x0020, 0x0449, 0x043E, 0x0020, 0x0445, 0x043E, 0x0447, 0x0435,
      0x0442, 0x0435, 0x0020, 0x043F, 0x0440, 0x043E, 0x0434, 0x043E, 0x0432, 0x0436,
      0x0438, 0x0442, 0x0438, 0x003F]"

text \<open>
  The state of the confirm modal: the closure variable \<open>pendingAction\<close> and the
  text of \<open>#confirmActionBody\<close>.
\<close>

record confirm_state =
  pendingAction :: "node option"
  textContent :: js_string

definition has_data_confirm :: "element \<Rightarrow> bool" where
  "has_data_confirm e = (dataset e (asc ''confirm'') \<noteq> None)"

definition is_form :: "element \<Rightarrow> bool" where
  "is_form e = (tagName e = asc ''FORM'')"

text \<open>The document's click listener that opens the dialog.\<close>

definition confirm_click :: "node \<Rightarrow> confirm_state \<Rightarrow> confirm_state \<times> action list" where
  "confirm_click target st =
     (case closest has_data_confirm target of
        None \<Rightarrow> (st, [])
      | Some trigger \<Rightarrow>
          (st\<lparr>pendingAction := Some trigger,
              textContent :=
                (case dataset (fst trigger) (asc ''confirm'') of
                   None \<Rightarrow> default_prompt
                 | Some t \<Rightarrow> if t \<noteq> [] then t else default_prompt)\<rparr>,
           [PreventDefault, ModalShow]))"

text \<open>
  \<open>HTMLFormElement.requestSubmit(submitter)\<close>: a submitter that is not a submit
  button (a \<open>button\<close> in the submit state, an \<open>input\<close> of type \<open>submit\<close> or
  \<open>image\<close>) raises \<open>TypeError\<close>, one that this form does not own raises
  \<open>NotFoundError\<close>; otherwise the submission of the form is requested.
\<close>

definition is_submit_button :: "element \<Rightarrow> bool" where
  "is_submit_button e =
     ((tagName e = asc ''BUTTON'' \<and> type_prop e = Some (asc ''submit'')) \<or>
      (tagName e = asc ''INPUT'' \<and>
       (type_prop e = Some (asc ''submit'') \<or> type_prop e = Some (asc ''image''))))"

definition requestSubmit :: "element \<Rightarrow> element \<Rightarrow> exn + action" where
  "requestSubmit form submitter =
     (if \<not> is_submit_button submitter then Inl TypeError
      else if form_owner submitter \<noteq> Some (node_id form) then Inl NotFoundError
      else Inr (RequestSubmit form submitter))"

text \<open>
  The click listener of the accept button. \<open>proceed\<close> is its \<open>if\<close> \<dots>
  \<open>else if\<close>: the calls made, or the exception that \<open>requestSubmit\<close> throws.
  The listener returns the state, the calls made, and the exception that left it, if
  any; an exception leaves it before \<open>modal.hide()\<close> and
  \<open>pendingAction = null\<close>.
\<close>

definition proceed :: "node \<Rightarrow> exn + action list" where
  "proceed trigger =
     (if tagName (fst trigger) = asc ''A'' \<and> truthy (href (fst trigger))
      then (case href (fst trigger) of None \<Rightarrow> Inr [] | Some h \<Rightarrow> Inr [Navigate h])
      else if type_prop (fst trigger) = Some (asc ''submit'')
      then (case closest is_form trigger of
              None \<Rightarrow> Inr []
            | Some form \<Rightarrow>
                (case requestSubmit (fst form) (fst trigger) of
                   Inl e \<Rightarrow> Inl e
                 | Inr a \<Rightarrow> Inr [a]))
      else Inr [])"

definition accept_click :: "confirm_state \<Rightarrow> confirm_state \<times> action list \<times> exn option" where
  "accept_click st =
     (case pendingAction st of
        None \<Rightarrow> (st, [], None)
      | Some trigger \<Rightarrow>
          (case proceed trigger of
             Inl e \<Rightarrow> (st, [], Some e)
           | Inr calls \<Rightarrow> (st\<lparr>pendingAction := None\<rparr>, calls @ [ModalHide], None)))"

section \<open>Keyboard shortcuts\<close>

text \<open>
  \<open>typing\<close>: the tag of \<open>doc.activeElement\<close> (\<open>None\<close> when nothing has the
  focus) is one of the three the listener names.
\<close>

definition typing :: "element option \<Rightarrow> bool" where
  "typing active =
     (case active of
        None \<Rightarrow> False
      | Some e \<Rightarrow> tagName e \<in> set (map asc [''INPUT'', ''TEXTAREA'', ''SELECT'']))"

text \<open>
  The \<open>keydown\<close> listener of \<open>initShortcuts\<close>. \<open>toLowerCase\<close> is the string
  method of that name, taken as a parameter; \<open>newOrderLink\<close> is the \<open>.href\<close> of
  the first link matching \<open>a[href*="/orders/create/"]\<close> and \<open>searchInput\<close> tells
  whether \<open>#globalSearchInput\<close> exists.
\<close>

definition shortcuts_keydown ::
  "(js_string \<Rightarrow> js_string) \<Rightarrow> element option \<Rightarrow> js_string option \<Rightarrow> bool \<Rightarrow> js_string
     \<Rightarrow> action list" where
  "shortcuts_keydown toLowerCase active newOrderLink searchInput key =
     (if typing active \<and> toLowerCase key \<noteq> asc ''escape'' then []
      else
        (if toLowerCase key = asc ''n''
         then PreventDefault # (case newOrderLink of None \<Rightarrow> [] | Some h \<Rightarrow> [Navigate h])
         else [])
        @
        (if toLowerCase key = asc ''f''
         then PreventDefault # (if searchInput then [Focus, Select] else [])
         else []))"

section \<open>Search results\<close>

text \<open>
  The response of the search endpoint: an object with the optional array fields
  \<open>orders\<close>, \<open>customers\<close> and \<open>products\<close>, whose entries have the strings
  \<open>url\<close> and \<open>title\<close> and an optional string \<open>meta\<close>. The object is a map
  from keys to arrays, a missing (or \<open>null\<close>) field being \<open>None\<close>. Responses of
  any other shape are not modelled.
\<close>

record item =
  url :: js_string
  title :: js_string
  meta :: "js_string option"

type_synonym payload = "js_string \<rightharpoonup> item list"

record group =
  key :: js_string
  group_title :: js_string

definition groups :: "group list" where
  "groups =
     [\<lparr>key = asc ''orders'',
       group_title = [0x0417, 0x0430, 0x043C, 0x043E, 0x0432, 0x043B, 0x0435, 0x043D, 0x043D, 0x044F]\<rparr>,
      \<lparr>key = asc ''customers'',
       group_title = [0x041A, 0x043B, 0x0456, 0x0454, 0x043D, 0x0442, 0x0438]\<rparr>,
      \<lparr>key = asc ''products'',
       group_title = [0x0422, 0x043E, 0x0432, 0x0430, 0x0440, 0x0438]\<rparr>]"

definition group_header :: "group \<Rightarrow> js_string" where
  \<open>group_header g =
     asc ''<section class="global-search-group"><div class="global-search-group-title">''
     @ group_title g @ asc ''</div>''\<close>

definition item_row :: "item \<Rightarrow> js_string" where
  \<open>item_row i =
     asc ''<a class="global-search-item" href="'' @ url i @ asc ''"><span>'' @ title i
     @ asc ''</span><span class="global-search-meta">''
     @ (case meta i of None \<Rightarrow> [] | Some m \<Rightarrow> if m \<noteq> [] then m else [])
     @ asc ''</span></a>''\<close>

definition section_close :: js_string where
  "section_close = asc ''</section>''"

definition empty_placeholder :: js_string where
  \<open>empty_placeholder =
     asc ''<div class="global-search-empty">''
     @ [0x041D, 0x0456, 0x0447, 0x043E, 0x0433, 0x043E, 0x0020, 0x043D, 0x0435, 0x0020,
        0x0437, 0x043D, 0x0430, 0x0439, 0x0434, 0x0435, 0x043D, 0x043E]
     @ asc ''</div>''\<close>

definition error_placeholder :: js_string where
  \<open>error_placeholder =
     asc ''<div class="global-search-empty">''
     @ [0x041F, 0x043E, 0x043C, 0x0438, 0x043B, 0x043A, 0x0430, 0x0020, 0x043F, 0x043E,
        0x0448, 0x0443, 0x043A, 0x0443]
     @ asc ''</div>''\<close>

text \<open>\<open>payload[group.key] || []\<close>\<close>

definition items_of :: "payload \<Rightarrow> group \<Rightarrow> item list" where
  "items_of payload g = (case payload (key g) of None \<Rightarrow> [] | Some items \<Rightarrow> items)"

text \<open>
  The body of \<open>groups.forEach\<close>, on the string \<open>html\<close> built so far, and
  \<open>renderSearchResults\<close>.
\<close>

definition render_group :: "payload \<Rightarrow> group \<Rightarrow> js_string \<Rightarrow> js_string" where
  "render_group payload g html =
     (let items = items_of payload g in
      if length items = 0 then html
      else fold (\<lambda>i h. h @ item_row i) items (html @ group_header g) @ section_close)"

definition renderSearchResults :: "element \<Rightarrow> payload \<Rightarrow> element" where
  "renderSearchResults container payload =
     (let html = fold (render_group payload) groups [] in
      container\<lparr>innerHTML := (if html \<noteq> [] then html else empty_placeholder),
                hidden := False\<rparr>)"

text \<open>
  The rendering as the specification words it, with the markup written out. A link
  row: a link to the item's \<open>url\<close> holding the title and, in a second \<open>span\<close>,
  the \<open>meta\<close> text if there is one. The block of a category: nothing for an empty
  array, else the heading followed by one link row per item, in a \<open>section\<close>. The
  results: the blocks of orders, customers and products, in this order, or the one
  ``nothing found'' placeholder when the three arrays are all absent or empty.
\<close>

definition link_row :: "item \<Rightarrow> js_string" where
  \<open>link_row i =
     asc ''<a class="global-search-item" href="'' @ url i @ asc ''">''
     @ asc ''<span>'' @ title i @ asc ''</span>''
     @ asc ''<span class="global-search-meta">''
     @ (case meta i of None \<Rightarrow> [] | Some m \<Rightarrow> m)
     @ asc ''</span>''
     @ asc ''</a>''\<close>

definition category_block :: "js_string \<Rightarrow> item list \<Rightarrow> js_string" where
  \<open>category_block heading items =
     (if items = [] then []
      else asc ''<section class="global-search-group">''
           @ asc ''<div class="global-search-group-title">'' @ heading @ asc ''</div>''
           @ concat (map link_row items)
           @ asc ''</section>'')\<close>

definition field_items :: "payload \<Rightarrow> string \<Rightarrow> item list" where
  "field_items payload k = (case payload (asc k) of None \<Rightarrow> [] | Some items \<Rightarrow> items)"

definition grouped_results :: "payload \<Rightarrow> js_string" where
  \<open>grouped_results payload =
     (if field_items payload ''orders'' = [] \<and> field_items payload ''customers'' = [] \<and>
         field_items payload ''products'' = []
      then asc ''<div class="global-search-empty">''
           @ [0x041D, 0x0456, 0x0447, 0x043E, 0x0433, 0x043E, 0x0020, 0x043D, 0x0435, 0x0020,
              0x0437, 0x043D, 0x0430, 0x0439, 0x0434, 0x0435, 0x043D, 0x043E]
           @ asc ''</div>''
      else category_block
             [0x0417, 0x0430, 0x043C, 0x043E, 0x0432, 0x043B, 0x0435, 0x043D, 0x043D, 0x044F]
             (field_items payload ''orders'')
           @ category_block [0x041A, 0x043B, 0x0456, 0x0454, 0x043D, 0x0442, 0x0438]
               (field_items payload ''customers'')
           @ category_block [0x0422, 0x043E, 0x0432, 0x0430, 0x0440, 0x0438]
               (field_items payload ''products''))\<close>

section \<open>Global search\<close>

text \<open>
  \<open>String.prototype.trim\<close> removes white space and line terminators (all of
  them single code units) from both ends.
\<close>

definition white_space :: "char16 \<Rightarrow> bool" where
  "white_space c =
     (c \<in> set [0x0009, 0x000A, 0x000B, 0x000C, 0x000D, 0x0020, 0x00A0, 0x1680,
                0x2028, 0x2029, 0x202F, 0x205F, 0x3000, 0xFEFF]
      \<or> (0x2000 \<le> c \<and> c \<le> 0x200A))"

definition trim :: "js_string \<Rightarrow> js_string" where
  "trim s = rev (dropWhile white_space (rev (dropWhile white_space s)))"

text \<open>
  \<open>encodeURIComponent\<close>: the unreserved characters stay, every other code point
  is written as the percent-escaped bytes of its UTF-8 form, and an unpaired
  surrogate raises \<open>URIError\<close>.
\<close>

definition unescaped :: "char16 \<Rightarrow> bool" where
  "unescaped c =
     ((0x41 \<le> c \<and> c \<le> 0x5A) \<or> (0x61 \<le> c \<and> c \<le> 0x7A) \<or> (0x30 \<le> c \<and> c \<le> 0x39)
      \<or> c \<in> set [0x2D, 0x5F, 0x2E, 0x21, 0x7E, 0x2A, 0x27, 0x28, 0x29])"

definition lead_surrogate :: "char16 \<Rightarrow> bool" where
  "lead_surrogate c = (0xD800 \<le> c \<and> c \<le> 0xDBFF)"

definition trail_surrogate :: "char16 \<Rightarrow> bool" where
  "trail_surrogate c = (0xDC00 \<le> c \<and> c \<le> 0xDFFF)"

definition utf8 :: "nat \<Rightarrow> nat list" where
  "utf8 cp =
     (if cp < 0x80 then [cp]
      else if cp < 0x800 then [0xC0 + cp div 0x40, 0x80 + cp mod 0x40]
      else if cp < 0x10000
      then [0xE0 + cp div 0x1000, 0x80 + cp div 0x40 mod 0x40, 0x80 + cp mod 0x40]
      else [0xF0 + cp div 0x40000, 0x80 + cp div 0x1000 mod 0x40,
            0x80 + cp div 0x40 mod 0x40, 0x80 + cp mod 0x40])"

definition hex_digit :: "nat \<Rightarrow> char16" where
  "hex_digit n = (if n < 10 then 0x30 + of_nat n else 0x41 + of_nat (n - 10))"

definition percent :: "nat list \<Rightarrow> js_string" where
  "percent octets = concat (map (\<lambda>b. [0x25, hex_digit (b div 16), hex_digit (b mod 16)]) octets)"

definition pair_code_point :: "char16 \<Rightarrow> char16 \<Rightarrow> nat" where
  "pair_code_point c d = 0x10000 + (unat c - 0xD800) * 0x400 + (unat d - 0xDC00)"

fun encodeURIComponent :: "js_string \<Rightarrow> exn + js_string" where
  "encodeURIComponent [] = Inr []"
| "encodeURIComponent [c] =
     (if unescaped c then Inr [c]
      else if lead_surrogate c \<or> trail_surrogate c then Inl URIError
      else Inr (percent (utf8 (unat c))))"
| "encodeURIComponent (c # d # s) =
     (if unescaped c then map_sum id ((#) c) (encodeURIComponent (d # s))
      else if lead_surrogate c
      then (if trail_surrogate d
            then map_sum id ((@) (percent (utf8 (pair_code_point c d)))) (encodeURIComponent s)
            else Inl URIError)
      else if trail_surrogate c then Inl URIError
      else map_sum id ((@) (percent (utf8 (unat c)))) (encodeURIComponent (d # s)))"

text \<open>\<open>String.prototype.isWellFormed\<close>: no unpaired surrogate.\<close>

fun isWellFormed :: "js_string \<Rightarrow> bool" where
  "isWellFormed [] = True"
| "isWellFormed [c] = (\<not> lead_surrogate c \<and> \<not> trail_surrogate c)"
| "isWellFormed (c # d # s) =
     (if lead_surrogate c then trail_surrogate d \<and> isWellFormed s
      else \<not> trail_surrogate c \<and> isWellFormed (d # s))"

text \<open>
  How a request ends: the promise of \<open>fetch\<close> rejects, or it resolves to a
  response with its \<open>ok\<close> flag and with what \<open>response.json()\<close> will give, a
  rejection or the parsed object.
\<close>

datatype body = BadJson | Json payload

datatype fetch_outcome = NetworkError | Response bool body

text \<open>
  The state of the search overlay: the panel \<open>#globalSearchResults\<close>, the
  closure variable \<open>timer\<close> (\<open>None\<close> for \<open>null\<close>), the browser's pending
  timeouts set by this listener (handle, time due, the \<open>query\<close> the callback
  closes over), the next handle the browser hands out, the clock in milliseconds, the
  URLs passed to \<open>fetch\<close> so far (oldest first) and the number of requests still in
  flight. \<open>endpoint\<close> is \<open>form.dataset.searchEndpoint\<close>.
\<close>

record search_state =
  endpoint :: "js_string option"
  panel :: element
  timer :: "nat option"
  timers :: "(nat \<times> nat \<times> js_string) list"
  next_handle :: nat
  now :: nat
  requests :: "js_string list"
  in_flight :: nat

definition clearTimeout :: "nat option \<Rightarrow> (nat \<times> nat \<times> js_string) list \<Rightarrow> (nat \<times> nat \<times> js_string) list" where
  "clearTimeout h ts = (case h of None \<Rightarrow> ts | Some i \<Rightarrow> filter (\<lambda>t. fst t \<noteq> i) ts)"

text \<open>The \<open>input\<close> listener; \<open>v\<close> is \<open>input.value\<close>.\<close>

definition on_input :: "js_string \<Rightarrow> search_state \<Rightarrow> search_state" where
  "on_input v s =
     (let query = trim v;
          s1 = s\<lparr>timers := clearTimeout (timer s) (timers s)\<rparr>
      in if length query < 2
         then s1\<lparr>panel := (panel s1)\<lparr>hidden := True, innerHTML := []\<rparr>\<rparr>
         else s1\<lparr>timer := Some (next_handle s1),
                 timers := timers s1 @ [(next_handle s1, now s1 + 180, query)],
                 next_handle := Suc (next_handle s1)\<rparr>)"

text \<open>The \<open>catch\<close> block of the timer callback.\<close>

definition search_catch :: "element \<Rightarrow> element" where
  "search_catch p = p\<lparr>hidden := False, innerHTML := error_placeholder\<rparr>"

definition search_url :: "js_string option \<Rightarrow> js_string \<Rightarrow> js_string" where
  "search_url ep q = (case ep of None \<Rightarrow> asc ''undefined'' | Some e \<Rightarrow> e) @ asc ''?q='' @ q"

text \<open>
  The timer callback up to its first \<open>await\<close>: the URL is built and \<open>fetch\<close>
  is called. The result is \<open>Inl\<close> if an exception leaves the callback.
\<close>

definition callback_start :: "js_string \<Rightarrow> search_state \<Rightarrow> exn + search_state" where
  "callback_start query s =
     (case encodeURIComponent query of
        Inl e \<Rightarrow> Inr (s\<lparr>panel := search_catch (panel s)\<rparr>)
      | Inr q \<Rightarrow>
          Inr (s\<lparr>requests := requests s @ [search_url (endpoint s) q],
                 in_flight := Suc (in_flight s)\<rparr>))"

text \<open>
  The rest of the \<open>try\<close> block once the request has ended, and the callback from
  there on with its \<open>catch\<close>.
\<close>

definition search_try :: "fetch_outcome \<Rightarrow> element \<Rightarrow> exn + element" where
  "search_try outcome p =
     (case outcome of
        NetworkError \<Rightarrow> Inl FetchFailed
      | Response ok b \<Rightarrow>
          if \<not> ok then Inl SearchError
          else (case b of
                  BadJson \<Rightarrow> Inl JsonFailed
                | Json payload \<Rightarrow> Inr (renderSearchResults p payload)))"

definition callback_settled :: "fetch_outcome \<Rightarrow> element \<Rightarrow> exn + element" where
  "callback_settled outcome p =
     (case search_try outcome p of
        Inl e \<Rightarrow> Inr (search_catch p)
      | Inr p' \<Rightarrow> Inr p')"

text \<open>
  The two listeners on the document that dismiss the panel: a click, where
  \<open>inside\<close> is \<open>form.contains(event.target)\<close>, and a key press with its
  \<open>event.key\<close> (the focus that \<open>input.blur()\<close> takes away is not part of
  the state).
\<close>

definition document_click :: "bool \<Rightarrow> search_state \<Rightarrow> search_state" where
  "document_click inside s = (if \<not> inside then s\<lparr>panel := (panel s)\<lparr>hidden := True\<rparr>\<rparr> else s)"

definition document_keydown :: "js_string \<Rightarrow> search_state \<Rightarrow> search_state" where
  "document_keydown k s =
     (if k = asc ''Escape'' then s\<lparr>panel := (panel s)\<lparr>hidden := True\<rparr>\<rparr> else s)"

text \<open>
  The events of the overlay: an \<open>input\<close> event with the value of the field, the
  passing of \<open>d\<close> milliseconds (timeouts that are due run, in the order they were
  set), the end of a request in flight, a click and a key press. An exception that
  left a callback would leave the state as it was.
\<close>

datatype event =
    Input js_string
  | Wait nat
  | Settle fetch_outcome
  | Click bool
  | Keydown js_string

definition completed :: "search_state \<Rightarrow> exn + search_state \<Rightarrow> search_state" where
  "completed s r = (case r of Inl e \<Rightarrow> s | Inr s' \<Rightarrow> s')"

definition wait :: "nat \<Rightarrow> search_state \<Rightarrow> search_state" where
  "wait d s =
     (let t = now s + d;
          due = filter (\<lambda>(h, at, q). at \<le> t) (timers s);
          rest = filter (\<lambda>(h, at, q). \<not> at \<le> t) (timers s)
      in fold (\<lambda>(h, at, q) s'. completed s' (callback_start q s')) due
           (s\<lparr>now := t, timers := rest\<rparr>))"

definition settle :: "fetch_outcome \<Rightarrow> search_state \<Rightarrow> search_state" where
  "settle outcome s =
     (if in_flight s = 0 then s
      else (case callback_settled outcome (panel s) of
              Inl e \<Rightarrow> s\<lparr>in_flight := in_flight s - 1\<rparr>
            | Inr p \<Rightarrow> s\<lparr>panel := p, in_flight := in_flight s - 1\<rparr>))"

fun step :: "event \<Rightarrow> search_state \<Rightarrow> search_state" where
  "step (Input v) s = on_input v s"
| "step (Wait d) s = wait d s"
| "step (Settle outcome) s = settle outcome s"
| "step (Click inside) s = document_click inside s"
| "step (Keydown k) s = document_keydown k s"

definition run :: "search_state \<Rightarrow> event list \<Rightarrow> search_state" where
  "run s evs = fold step evs s"

text \<open>The overlay as \<open>initGlobalSearch\<close> leaves it.\<close>

definition init_search :: "js_string option \<Rightarrow> element \<Rightarrow> search_state" where
  "init_search ep p =
     \<lparr>endpoint = ep, panel = p, timer = None, timers = [], next_handle = 1, now = 0,
      requests = [], in_flight = 0\<rparr>"

text \<open>
  A pause is a stretch of events without an \<open>input\<close> event; \<open>elapsed\<close> is the
  time that passes in it. A burst of input is a list of values typed, each with the
  pause after it, and it is rapid when each of these pauses is shorter than the
  180 ms of the timeout.
\<close>

fun is_input :: "event \<Rightarrow> bool" where
  "is_input (Input v) = True"
| "is_input e = False"

fun elapsed :: "event list \<Rightarrow> nat" where
  "elapsed [] = 0"
| "elapsed (Wait d # evs) = d + elapsed evs"
| "elapsed (e # evs) = elapsed evs"

definition pause :: "event list \<Rightarrow> bool" where
  "pause evs = list_all (\<lambda>e. \<not> is_input e) evs"

fun burst :: "(js_string \<times> event list) list \<Rightarrow> event list" where
  "burst [] = []"
| "burst ((v, p) # b) = Input v # p @ burst b"

definition rapid :: "(js_string \<times> event list) list \<Rightarrow> bool" where
  "rapid b = list_all (\<lambda>(v, p). pause p \<and> elapsed p < 180) b"

section \<open>Invariants and auxiliary notions\<close>


text \<open>
  The invariant of the search overlay: a timeout that is still pending is the one
  whose handle the variable \<open>timer\<close> holds.
\<close>

definition timers_inv :: "search_state \<Rightarrow> bool" where
  "timers_inv s = (\<forall>t \<in> set (timers s). timer s = Some (fst t))"

text \<open>
  More precisely, at most one timeout is pending, and it is not yet due.
\<close>

definition pending_ok :: "search_state \<Rightarrow> bool" where
  "pending_ok s =
     (case timers s of
        [] \<Rightarrow> True
      | [t] \<Rightarrow> timer s = Some (fst t) \<and> now s < fst (snd t)
      | t # u # ts \<Rightarrow> False)"

definition due_by :: "nat \<Rightarrow> nat \<times> nat \<times> js_string \<Rightarrow> bool" where
  "due_by t x = (fst (snd x) \<le> t)"

text \<open>
  The requests a pending timeout makes when it runs: one for the encoded query, none
  when \<open>encodeURIComponent\<close> throws.
\<close>

definition issued :: "js_string option \<Rightarrow> nat \<times> nat \<times> js_string \<Rightarrow> js_string list" where
  "issued ep t =
     (case encodeURIComponent (snd (snd t)) of Inl e \<Rightarrow> [] | Inr u \<Rightarrow> [search_url ep u])"

section \<open>Example pages\<close>

definition save_button :: element where
  "save_button = (blank ''BUTTON'')\<lparr>attrs := [asc ''type'' \<mapsto> asc ''submit'']\<rparr>"

definition order_form :: "element list" where
  "order_form = [blank ''DIV'', save_button]"

definition order_row :: element where
  "order_row = (blank ''TR'')\<lparr>attrs := [asc ''data-row-link'' \<mapsto> asc ''/orders/7/'']\<rparr>"

definition cell_target :: node where
  "cell_target = (blank ''TD'', [order_row, blank ''TBODY'', blank ''TABLE''])"

definition button_target :: node where
  "button_target = (blank ''BUTTON'', [blank ''TD'', order_row, blank ''TBODY'', blank ''TABLE''])"

definition delete_link :: node where
  "delete_link =
     ((blank ''A'')\<lparr>dataset := [asc ''confirm'' \<mapsto> asc ''Delete?''],
                    href := Some (asc ''https://crm.example/orders/7/delete/'')\<rparr>,
      [blank ''TD''])"

definition order_form_element :: element where
  "order_form_element = (blank ''FORM'')\<lparr>node_id := 1\<rparr>"

definition delete_button :: node where
  "delete_button =
     ((blank ''BUTTON'')\<lparr>dataset := [asc ''confirm'' \<mapsto> []],
                         type_prop := Some (asc ''submit''), node_id := 2,
                         form_owner := Some 1\<rparr>,
      [blank ''DIV'', order_form_element, blank ''BODY''])"

text \<open>
  A submit button inside the form 1 whose \<open>form\<close> attribute names another form, 5;
  the same button outside any form; and an image button inside its form.
\<close>

definition foreign_button :: node where
  "foreign_button =
     ((blank ''BUTTON'')\<lparr>dataset := [asc ''confirm'' \<mapsto> []],
                         type_prop := Some (asc ''submit''), node_id := 3,
                         form_owner := Some 5\<rparr>,
      [blank ''DIV'', order_form_element, blank ''BODY''])"

definition detached_button :: node where
  "detached_button =
     ((blank ''BUTTON'')\<lparr>dataset := [asc ''confirm'' \<mapsto> []],
                         type_prop := Some (asc ''submit''), node_id := 3,
                         form_owner := Some 5\<rparr>,
      [blank ''DIV'', blank ''BODY''])"

definition image_button :: node where
  "image_button =
     ((blank ''INPUT'')\<lparr>dataset := [asc ''confirm'' \<mapsto> []],
                        type_prop := Some (asc ''image''), node_id := 4,
                        form_owner := Some 1\<rparr>,
      [order_form_element, blank ''BODY''])"

definition idle :: confirm_state where
  "idle = \<lparr>pendingAction = None, textContent = []\<rparr>"

definition one_order :: payload where
  "one_order = [asc ''orders'' \<mapsto> [\<lparr>url = asc ''/o/1'', title = asc ''Order 1'', meta = None\<rparr>]]"

definition two_groups :: payload where
  "two_groups =
     [asc ''products'' \<mapsto>
        [\<lparr>url = asc ''/p/9'', title = asc ''Mug'', meta = Some (asc ''SKU 9'')\<rparr>],
      asc ''orders'' \<mapsto>
        [\<lparr>url = asc ''/o/1'', title = asc ''Order 1'', meta = None\<rparr>,
         \<lparr>url = asc ''/o/2'', title = asc ''Order 2'', meta = Some []\<rparr>],
      asc ''customers'' \<mapsto> []]"

definition search_page :: search_state where
  "search_page = init_search (Some (asc ''/search/'')) (blank ''DIV'')"

section \<open>Properties of the theme manager\<close>













section \<open>Properties of the submit loading state\<close>

lemma asc_eq_Nil: "asc s = [] \<longleftrightarrow> s = []"
  by (simp add: asc_def)

lemma setButtonLoadingState_idem:
  "setButtonLoadingState (setButtonLoadingState b) = setButtonLoadingState b"
  by (cases b) (simp_all add: Let_def)

lemma setButtonLoadingState_selector:
  "setButtonLoadingState (Some e) = Some e' \<Longrightarrow> submit_selector e' = submit_selector e"
  by (auto simp: Let_def submit_selector_def split: if_splits)

lemma setButtonLoadingState_Some: "\<exists>e'. setButtonLoadingState (Some e) = Some e'"
  by (simp add: Let_def)

lemma querySelector_Some:
  "querySelector sel es = Some i \<Longrightarrow> i < length es \<and> sel (es ! i)"
  by (induction es arbitrary: i) (auto split: if_splits)

lemma querySelector_update:
  "querySelector sel es = Some i \<Longrightarrow> sel b \<Longrightarrow> querySelector sel (es[i := b]) = Some i"
  by (induction es arbitrary: i) (auto split: if_splits)

lemma form_submit_idem: "form_submit (form_submit form) = form_submit form"
proof (cases "querySelector submit_selector form")
  case None
  then show ?thesis by (simp add: form_submit_def)
next
  case (Some i)
  obtain b where b: "setButtonLoadingState (Some (form ! i)) = Some b"
    using setButtonLoadingState_Some by blast
  have i: "i < length form" "submit_selector (form ! i)"
    using querySelector_Some [OF Some] by simp_all
  have sel: "submit_selector b"
    using setButtonLoadingState_selector [OF b] i by simp
  have first: "form_submit form = form[i := b]"
    using Some b by (simp add: form_submit_def)
  have again: "querySelector submit_selector (form[i := b]) = Some i"
    by (rule querySelector_update [OF Some sel])
  have "setButtonLoadingState (Some b) = Some b"
    using setButtonLoadingState_idem [of "Some (form ! i)"] b by simp
  then have "form_submit (form[i := b]) = form[i := b]"
    using again i by (simp add: form_submit_def)
  with first show ?thesis by simp
qed

lemma form_submit_again: "(form_submit ^^ n) (form_submit form) = form_submit form"
  by (induction n) (simp_all add: form_submit_idem)

text \<open>
  C5: \<open>setButtonLoadingState\<close> applied twice is \<open>setButtonLoadingState\<close> applied
  once, on every control (and on \<open>null\<close>). Applied to a control whose bound flag is
  not yet \<open>1\<close>, it returns the control disabled, flagged, with the class
  \<open>btn-loading\<close>, and with this content: the spinner, an empty \<open>span\<close> of class
  \<open>btn-spinner\<close>, followed by a \<open>span\<close> of class \<open>btn-label\<close> around the label,
  which is the loading text of the control, or the thirteen code units of the default
  when that text is missing or empty. For a form, the \<open>submit\<close> listener run again,
  any number of times, leaves the form as the first run left it.
\<close>

theorem loading_state_idempotent:
  \<open>setButtonLoadingState (setButtonLoadingState b) = setButtonLoadingState b \<and>
   form_submit (form_submit form) = form_submit form \<and>
   (form_submit ^^ n) (form_submit form) = form_submit form \<and>
   (dataset e (asc ''loadingBound'') \<noteq> Some (asc ''1'') \<longrightarrow>
      (\<exists>e'. setButtonLoadingState (Some e) = Some e' \<and>
         disabled e' \<and>
         dataset e' (asc ''loadingBound'') = Some (asc ''1'') \<and>
         asc ''btn-loading'' \<in> set (classList e') \<and>
         innerHTML e' =
           asc ''<span class="btn-spinner"></span><span class="btn-label">''
           @ (case dataset e (asc ''loadingText'') of
                None \<Rightarrow>
                  [0x0417, 0x0431, 0x0435, 0x0440, 0x0435, 0x0436, 0x0435, 0x043D, 0x043D,
                   0x044F, 0x002E, 0x002E, 0x002E]
              | Some t \<Rightarrow>
                  if t = []
                  then [0x0417, 0x0431, 0x0435, 0x0440, 0x0435, 0x0436, 0x0435, 0x043D, 0x043D,
                        0x044F, 0x002E, 0x002E, 0x002E]
                  else t)
           @ asc ''</span>'' \<and>
         tagName e' = tagName e \<and> attrs e' = attrs e \<and> hidden e' = hidden e \<and>
         href e' = href e \<and> type_prop e' = type_prop e))\<close>
proof (intro conjI impI)
  show "setButtonLoadingState (setButtonLoadingState b) = setButtonLoadingState b"
    by (rule setButtonLoadingState_idem)
  show "form_submit (form_submit form) = form_submit form"
    by (rule form_submit_idem)
  show "(form_submit ^^ n) (form_submit form) = form_submit form"
    by (rule form_submit_again)
next
  assume "dataset e (asc ''loadingBound'') \<noteq> Some (asc ''1'')"
  moreover have "asc ''loadingText'' \<noteq> asc ''loadingBound''"
    by (simp add: asc_def)
  ultimately show \<open>\<exists>e'. setButtonLoadingState (Some e) = Some e' \<and>
         disabled e' \<and>
         dataset e' (asc ''loadingBound'') = Some (asc ''1'') \<and>
         asc ''btn-loading'' \<in> set (classList e') \<and>
         innerHTML e' =
           asc ''<span class="btn-spinner"></span><span class="btn-label">''
           @ (case dataset e (asc ''loadingText'') of
                None \<Rightarrow>
                  [0x0417, 0x0431, 0x0435, 0x0440, 0x0435, 0x0436, 0x0435, 0x043D, 0x043D,
                   0x044F, 0x002E, 0x002E, 0x002E]
              | Some t \<Rightarrow>
                  if t = []
                  then [0x0417, 0x0431, 0x0435, 0x0440, 0x0435, 0x0436, 0x0435, 0x043D, 0x043D,
                        0x044F, 0x002E, 0x002E, 0x002E]
                  else t)
           @ asc ''</span>'' \<and>
         tagName e' = tagName e \<and> attrs e' = attrs e \<and> hidden e' = hidden e \<and>
         href e' = href e \<and> type_prop e' = type_prop e\<close>
    by (auto simp: Let_def classList_add_def loading_html_def saving_label_def
        split: option.splits)
qed

theorem loading_state_idempotent_witness:
  \<open>dataset save_button (asc ''loadingBound'') \<noteq> Some (asc ''1'') \<and>
   form_submit order_form =
     [blank ''DIV'',
      save_button\<lparr>dataset := [asc ''loadingBound'' \<mapsto> asc ''1''],
                  classList := [asc ''btn-loading''], disabled := True,
                  innerHTML :=
                    asc ''<span class="btn-spinner"></span><span class="btn-label">''
                    @ [0x0417, 0x0431, 0x0435, 0x0440, 0x0435, 0x0436, 0x0435, 0x043D, 0x043D,
                       0x044F, 0x002E, 0x002E, 0x002E]
                    @ asc ''</span>''\<rparr>] \<and>
   form_submit (form_submit order_form) = form_submit order_form \<and>
   setButtonLoadingState
     (Some (save_button\<lparr>dataset := [asc ''loadingText'' \<mapsto> asc ''Saving''],
                         classList := [asc ''btn'']\<rparr>)) =
     Some (save_button
       \<lparr>dataset := [asc ''loadingText'' \<mapsto> asc ''Saving'', asc ''loadingBound'' \<mapsto> asc ''1''],
        classList := [asc ''btn'', asc ''btn-loading''], disabled := True,
        innerHTML :=
          asc ''<span class="btn-spinner"></span><span class="btn-label">Saving</span>''\<rparr>)\<close>
proof -
  have fresh: "dataset save_button (asc ''loadingBound'') \<noteq> Some (asc ''1'')"
    by (simp add: save_button_def blank_def)
  have sel: "querySelector submit_selector order_form = Some 1"
    by (simp add: order_form_def save_button_def blank_def submit_selector_def ascii_lower_def
        asc_def)
  have once: \<open>form_submit order_form =
     [blank ''DIV'',
      save_button\<lparr>dataset := [asc ''loadingBound'' \<mapsto> asc ''1''],
                  classList := [asc ''btn-loading''], disabled := True,
                  innerHTML :=
                    asc ''<span class="btn-spinner"></span><span class="btn-label">''
                    @ [0x0417, 0x0431, 0x0435, 0x0440, 0x0435, 0x0436, 0x0435, 0x043D, 0x043D,
                       0x044F, 0x002E, 0x002E, 0x002E]
                    @ asc ''</span>''\<rparr>]\<close>
    using fresh
    by (simp add: form_submit_def sel Let_def classList_add_def)
       (simp add: order_form_def save_button_def blank_def asc_def loading_html_def
         saving_label_def)
  have custom: \<open>setButtonLoadingState
     (Some (save_button\<lparr>dataset := [asc ''loadingText'' \<mapsto> asc ''Saving''],
                         classList := [asc ''btn'']\<rparr>)) =
     Some (save_button
       \<lparr>dataset := [asc ''loadingText'' \<mapsto> asc ''Saving'', asc ''loadingBound'' \<mapsto> asc ''1''],
        classList := [asc ''btn'', asc ''btn-loading''], disabled := True,
        innerHTML :=
          asc ''<span class="btn-spinner"></span><span class="btn-label">Saving</span>''\<rparr>)\<close>
    by (simp add: Let_def classList_add_def loading_html_def save_button_def blank_def asc_def)
  from loading_state_idempotent [of None order_form 0 save_button] fresh once custom
  show ?thesis by simp
qed

section \<open>Properties of the row click\<close>

lemma closest_None_iff:
  "closest sel (e, anc) = None \<longleftrightarrow> (\<forall>x \<in> set (e # anc). \<not> sel x)"
  by (induction anc arbitrary: e) auto

text \<open>
  C6: a click whose target is, or lies inside, a link, button, input, select,
  textarea or label does not navigate; any other click on a row whose
  \<open>data-row-link\<close> holds a (non-empty) URL sets the location to that URL.
\<close>

theorem row_click_navigation:
  "((\<exists>x \<in> set (fst target # snd target). interactive x) \<longrightarrow> row_click row target = []) \<and>
   ((\<forall>x \<in> set (fst target # snd target). \<not> interactive x) \<and>
    attrs row (asc ''data-row-link'') = Some h \<and> h \<noteq> [] \<longrightarrow>
      row_click row target = [Navigate h])"
proof -
  obtain e anc where t: "target = (e, anc)" by (cases target)
  show ?thesis
    using closest_None_iff [of interactive e anc]
    by (auto simp: row_click_def t)
qed

theorem row_click_navigation_witness:
  "interactive (fst button_target) \<and>
   row_click order_row button_target = [] \<and>
   attrs order_row (asc ''data-row-link'') = Some (asc ''/orders/7/'') \<and>
   row_click order_row cell_target = [Navigate (asc ''/orders/7/'')]"
proof -
  have b: "interactive (fst button_target)"
    by (simp add: button_target_def interactive_def blank_def)
  have c: "\<forall>x \<in> set (fst cell_target # snd cell_target). \<not> interactive x"
    by (simp add: cell_target_def order_row_def interactive_def blank_def asc_def)
  have l: "attrs order_row (asc ''data-row-link'') = Some (asc ''/orders/7/'')"
    by (simp add: order_row_def blank_def)
  have n: "asc ''/orders/7/'' \<noteq> []"
    by (simp add: asc_def)
  from row_click_navigation [of button_target order_row]
    row_click_navigation [of cell_target order_row "asc ''/orders/7/''"] b c l n
  show ?thesis by simp
qed

text \<open>A row whose \<open>data-row-link\<close> is empty or gone takes no click anywhere.\<close>

lemma row_click_no_target:
  "attrs row (asc ''data-row-link'') = None \<or> attrs row (asc ''data-row-link'') = Some [] \<Longrightarrow>
   row_click row target = []"
  by (auto simp: row_click_def)

section \<open>Properties of the confirm modal\<close>

lemma confirm_click_examples:
  "confirm_click delete_link idle =
     (\<lparr>pendingAction = Some delete_link, textContent = asc ''Delete?''\<rparr>,
      [PreventDefault, ModalShow])"
  "confirm_click delete_button idle =
     (\<lparr>pendingAction = Some delete_button, textContent = default_prompt\<rparr>,
      [PreventDefault, ModalShow])"
  "confirm_click foreign_button idle =
     (\<lparr>pendingAction = Some foreign_button, textContent = default_prompt\<rparr>,
      [PreventDefault, ModalShow])"
  "confirm_click detached_button idle =
     (\<lparr>pendingAction = Some detached_button, textContent = default_prompt\<rparr>,
      [PreventDefault, ModalShow])"
  "confirm_click image_button idle =
     (\<lparr>pendingAction = Some image_button, textContent = default_prompt\<rparr>,
      [PreventDefault, ModalShow])"
  by (simp_all add: confirm_click_def idle_def has_data_confirm_def blank_def asc_def
      delete_link_def delete_button_def foreign_button_def detached_button_def
      image_button_def)

lemma submit_is_not_A: "asc ''BUTTON'' \<noteq> asc ''A''" "asc ''INPUT'' \<noteq> asc ''A''"
  "asc ''image'' \<noteq> asc ''submit''"
  by (simp_all add: asc_def)

text \<open>
  C4, as stated, fails on submit controls. A submit button that stands inside one form
  while its \<open>form\<close> attribute makes another form its owner: \<open>requestSubmit\<close> is
  called on the enclosing form and throws \<open>NotFoundError\<close>, so no submission is
  requested, the dialog is not hidden and the trigger stays pending. The same button
  outside any form, and an image button inside its form: the dialog is hidden and the
  trigger cleared, but no submission of the owning form is requested.
\<close>

theorem accept_click_counterexample:
  "is_submit_button (fst foreign_button) \<and>
   form_owner (fst foreign_button) = Some 5 \<and>
   accept_click (fst (confirm_click foreign_button idle)) =
     (\<lparr>pendingAction = Some foreign_button, textContent = default_prompt\<rparr>, [],
      Some NotFoundError) \<and>
   is_submit_button (fst detached_button) \<and>
   form_owner (fst detached_button) = Some 5 \<and>
   accept_click (fst (confirm_click detached_button idle)) =
     (\<lparr>pendingAction = None, textContent = default_prompt\<rparr>, [ModalHide], None) \<and>
   is_submit_button (fst image_button) \<and>
   form_owner (fst image_button) = Some 1 \<and>
   accept_click (fst (confirm_click image_button idle)) =
     (\<lparr>pendingAction = None, textContent = default_prompt\<rparr>, [ModalHide], None)"
proof -
  have f: "accept_click \<lparr>pendingAction = Some foreign_button, textContent = default_prompt\<rparr> =
      (\<lparr>pendingAction = Some foreign_button, textContent = default_prompt\<rparr>, [],
       Some NotFoundError)"
    by (simp add: accept_click_def proceed_def requestSubmit_def is_submit_button_def
        is_form_def foreign_button_def order_form_element_def blank_def submit_is_not_A)
  have d: "accept_click \<lparr>pendingAction = Some detached_button, textContent = default_prompt\<rparr> =
      (\<lparr>pendingAction = None, textContent = default_prompt\<rparr>, [ModalHide], None)"
    by (simp add: accept_click_def proceed_def is_form_def detached_button_def blank_def
        submit_is_not_A) (simp add: asc_def)
  have i: "accept_click \<lparr>pendingAction = Some image_button, textContent = default_prompt\<rparr> =
      (\<lparr>pendingAction = None, textContent = default_prompt\<rparr>, [ModalHide], None)"
    by (simp add: accept_click_def proceed_def image_button_def blank_def submit_is_not_A)
  have s: "is_submit_button (fst foreign_button)" "is_submit_button (fst detached_button)"
    "is_submit_button (fst image_button)"
    by (simp_all add: is_submit_button_def foreign_button_def detached_button_def
        image_button_def blank_def)
  have o: "form_owner (fst foreign_button) = Some 5" "form_owner (fst detached_button) = Some 5"
    "form_owner (fst image_button) = Some 1"
    by (simp_all add: foreign_button_def detached_button_def image_button_def)
  show ?thesis
    by (simp add: confirm_click_examples f d i s o)
qed

text \<open>
  C4, amended. When the accept button is clicked while a trigger is pending: a
  trigger that is an \<open>A\<close> element with a non-empty \<open>href\<close> makes the browser
  navigate to that \<open>href\<close>; any other trigger that is a submit button of type
  \<open>submit\<close> inside a form that is its owner has the submission of that form
  requested, with the trigger as submitter; a trigger that is not such a link and whose
  type is not \<open>submit\<close> (an image button, say) or that has no form among its
  ancestors (whatever form owns it) has nothing requested. In each of these cases the
  dialog is then hidden and the pending trigger cleared. A trigger of type
  \<open>submit\<close> inside a form that does not own it, or that is no submit button, makes
  \<open>requestSubmit\<close> throw: the listener stops there, nothing is requested, the dialog
  stays and the trigger remains pending. Whenever the listener returns without an
  exception, the trigger is cleared and hiding the dialog was the last thing done.
\<close>

theorem accept_click_proceeds:
  assumes "pendingAction st = Some trigger"
  shows "(tagName (fst trigger) = asc ''A'' \<and> href (fst trigger) = Some h \<and> h \<noteq> [] \<longrightarrow>
            accept_click st = (st\<lparr>pendingAction := None\<rparr>, [Navigate h, ModalHide], None)) \<and>
         (\<not> (tagName (fst trigger) = asc ''A'' \<and> truthy (href (fst trigger))) \<and>
          type_prop (fst trigger) = Some (asc ''submit'') \<and>
          is_submit_button (fst trigger) \<and>
          closest is_form trigger = Some form \<and>
          form_owner (fst trigger) = Some (node_id (fst form)) \<longrightarrow>
            accept_click st =
              (st\<lparr>pendingAction := None\<rparr>,
               [RequestSubmit (fst form) (fst trigger), ModalHide], None)) \<and>
         (\<not> (tagName (fst trigger) = asc ''A'' \<and> truthy (href (fst trigger))) \<and>
          (type_prop (fst trigger) \<noteq> Some (asc ''submit'') \<or> closest is_form trigger = None) \<longrightarrow>
            accept_click st = (st\<lparr>pendingAction := None\<rparr>, [ModalHide], None)) \<and>
         (\<not> (tagName (fst trigger) = asc ''A'' \<and> truthy (href (fst trigger))) \<and>
          type_prop (fst trigger) = Some (asc ''submit'') \<and>
          closest is_form trigger = Some form \<and>
          (\<not> is_submit_button (fst trigger) \<or>
           form_owner (fst trigger) \<noteq> Some (node_id (fst form))) \<longrightarrow>
            accept_click st =
              (st, [], Some (if is_submit_button (fst trigger) then NotFoundError else TypeError))) \<and>
         (snd (snd (accept_click st)) = None \<longrightarrow>
            pendingAction (fst (accept_click st)) = None \<and>
            fst (snd (accept_click st)) \<noteq> [] \<and>
            last (fst (snd (accept_click st))) = ModalHide)"
proof (intro conjI)
  show "tagName (fst trigger) = asc ''A'' \<and> href (fst trigger) = Some h \<and> h \<noteq> [] \<longrightarrow>
      accept_click st = (st\<lparr>pendingAction := None\<rparr>, [Navigate h, ModalHide], None)"
    using assms by (simp add: accept_click_def proceed_def)
  show "\<not> (tagName (fst trigger) = asc ''A'' \<and> truthy (href (fst trigger))) \<and>
      type_prop (fst trigger) = Some (asc ''submit'') \<and>
      is_submit_button (fst trigger) \<and>
      closest is_form trigger = Some form \<and>
      form_owner (fst trigger) = Some (node_id (fst form)) \<longrightarrow>
        accept_click st =
          (st\<lparr>pendingAction := None\<rparr>,
           [RequestSubmit (fst form) (fst trigger), ModalHide], None)"
    using assms by (auto simp: accept_click_def proceed_def requestSubmit_def)
  show "\<not> (tagName (fst trigger) = asc ''A'' \<and> truthy (href (fst trigger))) \<and>
      (type_prop (fst trigger) \<noteq> Some (asc ''submit'') \<or> closest is_form trigger = None) \<longrightarrow>
        accept_click st = (st\<lparr>pendingAction := None\<rparr>, [ModalHide], None)"
    using assms by (auto simp: accept_click_def proceed_def)
  show "\<not> (tagName (fst trigger) = asc ''A'' \<and> truthy (href (fst trigger))) \<and>
      type_prop (fst trigger) = Some (asc ''submit'') \<and>
      closest is_form trigger = Some form \<and>
      (\<not> is_submit_button (fst trigger) \<or>
       form_owner (fst trigger) \<noteq> Some (node_id (fst form))) \<longrightarrow>
        accept_click st =
          (st, [], Some (if is_submit_button (fst trigger) then NotFoundError else TypeError))"
    using assms by (auto simp: accept_click_def proceed_def requestSubmit_def)
  show "snd (snd (accept_click st)) = None \<longrightarrow>
      pendingAction (fst (accept_click st)) = None \<and>
      fst (snd (accept_click st)) \<noteq> [] \<and>
      last (fst (snd (accept_click st))) = ModalHide"
    using assms by (cases "proceed trigger") (simp_all add: accept_click_def)
qed

theorem accept_click_proceeds_witness:
  "pendingAction (fst (confirm_click delete_link idle)) = Some delete_link \<and>
   accept_click (fst (confirm_click delete_link idle)) =
     (\<lparr>pendingAction = None, textContent = asc ''Delete?''\<rparr>,
      [Navigate (asc ''https://crm.example/orders/7/delete/''), ModalHide], None) \<and>
   pendingAction (fst (confirm_click delete_button idle)) = Some delete_button \<and>
   accept_click (fst (confirm_click delete_button idle)) =
     (\<lparr>pendingAction = None, textContent = default_prompt\<rparr>,
      [RequestSubmit order_form_element (fst delete_button), ModalHide], None) \<and>
   pendingAction (fst (confirm_click foreign_button idle)) = Some foreign_button \<and>
   accept_click (fst (confirm_click foreign_button idle)) =
     (\<lparr>pendingAction = Some foreign_button, textContent = default_prompt\<rparr>, [],
      Some NotFoundError)"
proof -
  let ?l = "\<lparr>pendingAction = Some delete_link, textContent = asc ''Delete?''\<rparr>"
  let ?b = "\<lparr>pendingAction = Some delete_button, textContent = default_prompt\<rparr>"
  let ?f = "\<lparr>pendingAction = Some foreign_button, textContent = default_prompt\<rparr>"
  have fh: "\<not> (tagName (fst foreign_button) = asc ''A'' \<and> truthy (href (fst foreign_button))) \<and>
      type_prop (fst foreign_button) = Some (asc ''submit'') \<and>
      closest is_form foreign_button = Some (order_form_element, [blank ''BODY'']) \<and>
      is_submit_button (fst foreign_button) \<and>
      form_owner (fst foreign_button) \<noteq>
        Some (node_id (fst (order_form_element, [blank ''BODY''])))"
    by (simp add: foreign_button_def order_form_element_def blank_def is_form_def
        is_submit_button_def submit_is_not_A) (simp add: asc_def)
  have lh: "tagName (fst delete_link) = asc ''A'' \<and>
      href (fst delete_link) = Some (asc ''https://crm.example/orders/7/delete/'') \<and>
      asc ''https://crm.example/orders/7/delete/'' \<noteq> []"
    by (simp add: delete_link_def blank_def asc_def)
  have bh: "\<not> (tagName (fst delete_button) = asc ''A'' \<and> truthy (href (fst delete_button))) \<and>
      type_prop (fst delete_button) = Some (asc ''submit'') \<and>
      is_submit_button (fst delete_button) \<and>
      closest is_form delete_button = Some (order_form_element, [blank ''BODY'']) \<and>
      form_owner (fst delete_button) = Some (node_id (fst (order_form_element, [blank ''BODY''])))"
    by (simp add: delete_button_def order_form_element_def blank_def is_form_def
        is_submit_button_def submit_is_not_A) (simp add: asc_def)
  have "accept_click ?l =
      (\<lparr>pendingAction = None, textContent = asc ''Delete?''\<rparr>,
       [Navigate (asc ''https://crm.example/orders/7/delete/''), ModalHide], None)"
    using accept_click_proceeds [of ?l delete_link "asc ''https://crm.example/orders/7/delete/''"]
      lh
    by simp
  moreover have "accept_click ?b =
      (\<lparr>pendingAction = None, textContent = default_prompt\<rparr>,
       [RequestSubmit order_form_element (fst delete_button), ModalHide], None)"
    using accept_click_proceeds [of ?b delete_button _ "(order_form_element, [blank ''BODY''])"]
      bh
    by simp
  moreover have "accept_click ?f =
      (\<lparr>pendingAction = Some foreign_button, textContent = default_prompt\<rparr>, [],
       Some NotFoundError)"
    using accept_click_proceeds [of ?f foreign_button _ "(order_form_element, [blank ''BODY''])"]
      fh
    by simp
  ultimately show ?thesis
    by (simp add: confirm_click_examples)
qed

text \<open>With no trigger pending, the accept button does nothing.\<close>

lemma accept_click_idle: "pendingAction st = None \<Longrightarrow> accept_click st = (st, [], None)"
  by (simp add: accept_click_def)

section \<open>Properties of the keyboard shortcuts\<close>

lemma escape_is_no_shortcut: "asc ''escape'' \<noteq> asc ''n''" "asc ''escape'' \<noteq> asc ''f''"
  by (simp_all add: asc_def)

text \<open>
  C7: while the focused element is an \<open>INPUT\<close>, \<open>TEXTAREA\<close> or \<open>SELECT\<close>, the
  \<open>keydown\<close> listener does nothing at all, whatever the key \<open>k\<close> (Escape or not)
  and whatever \<open>toLowerCase\<close> makes of it: it neither navigates nor focuses or
  selects the search input nor prevents the default action. In particular for the
  keys \<open>n\<close> and \<open>f\<close>.
\<close>

theorem shortcuts_ignored_while_typing:
  assumes "typing active"
  shows "shortcuts_keydown toLowerCase active newOrderLink searchInput k = [] \<and>
         shortcuts_keydown toLowerCase active newOrderLink searchInput (asc ''n'') = [] \<and>
         shortcuts_keydown toLowerCase active newOrderLink searchInput (asc ''f'') = []"
  using assms escape_is_no_shortcut by (auto simp: shortcuts_keydown_def)

theorem shortcuts_ignored_while_typing_witness:
  "typing (Some (blank ''TEXTAREA'')) \<and>
   shortcuts_keydown ascii_lower (Some (blank ''TEXTAREA'')) (Some (asc ''/orders/create/'')) True
     (asc ''N'') = [] \<and>
   shortcuts_keydown ascii_lower (Some (blank ''TEXTAREA'')) (Some (asc ''/orders/create/'')) True
     (asc ''f'') = []"
proof -
  have t: "typing (Some (blank ''TEXTAREA''))"
    by (simp add: typing_def blank_def)
  from shortcuts_ignored_while_typing [OF t, of ascii_lower "Some (asc ''/orders/create/'')" True
      "asc ''N''"] t
  show ?thesis by simp
qed

text \<open>Outside such a control the two shortcuts act.\<close>

lemma shortcuts_act_otherwise:
  "shortcuts_keydown ascii_lower (Some (blank ''BODY'')) (Some (asc ''/orders/create/'')) True
     (asc ''N'') = [PreventDefault, Navigate (asc ''/orders/create/'')] \<and>
   shortcuts_keydown ascii_lower None None True (asc ''f'') = [PreventDefault, Focus, Select]"
  by (simp add: shortcuts_keydown_def typing_def blank_def ascii_lower_def asc_def)

section \<open>Properties of the rendering of search results\<close>

lemma fold_item_rows:
  "fold (\<lambda>i h. h @ row i) items acc = acc @ concat (map row items)"
  by (induction items arbitrary: acc) simp_all

lemma item_row_link_row: "item_row = link_row"
proof
  fix i :: item
  have m: "(case meta i of None \<Rightarrow> [] | Some m \<Rightarrow> if m \<noteq> [] then m else []) =
      (case meta i of None \<Rightarrow> [] | Some m \<Rightarrow> m)"
    by (cases "meta i") simp_all
  show "item_row i = link_row i"
    unfolding item_row_def link_row_def m by (simp add: asc_def)
qed

lemma render_group_block:
  "render_group payload g html = html @ category_block (group_title g) (items_of payload g)"
  by (simp add: render_group_def category_block_def fold_item_rows item_row_link_row
      group_header_def section_close_def Let_def asc_def)

lemma items_of_field:
  "items_of payload \<lparr>key = asc k, group_title = t\<rparr> = field_items payload k"
  by (simp add: items_of_def field_items_def)

lemma category_block_Nil: "category_block heading items = [] \<longleftrightarrow> items = []"
  by (simp add: category_block_def asc_def)

lemma loop_result:
  "fold (render_group payload) groups [] =
     category_block [0x0417, 0x0430, 0x043C, 0x043E, 0x0432, 0x043B, 0x0435, 0x043D, 0x043D, 0x044F]
       (field_items payload ''orders'')
     @ category_block [0x041A, 0x043B, 0x0456, 0x0454, 0x043D, 0x0442, 0x0438]
         (field_items payload ''customers'')
     @ category_block [0x0422, 0x043E, 0x0432, 0x0430, 0x0440, 0x0438]
         (field_items payload ''products'')"
  by (simp add: groups_def render_group_block items_of_field)

lemma innerHTML_render:
  "innerHTML (renderSearchResults c payload) = grouped_results payload"
proof -
  have "innerHTML (renderSearchResults c payload) =
      (if fold (render_group payload) groups [] \<noteq> [] then fold (render_group payload) groups []
       else empty_placeholder)"
    by (simp add: renderSearchResults_def Let_def)
  also have "\<dots> = grouped_results payload"
    unfolding loop_result grouped_results_def
    by (simp add: category_block_Nil empty_placeholder_def)
  finally show ?thesis .
qed

lemma field_items_Nil:
  "field_items payload k = [] \<longleftrightarrow> payload (asc k) = None \<or> payload (asc k) = Some []"
  by (cases "payload (asc k)") (simp_all add: field_items_def)

text \<open>
  C1: for every response of the documented shape, the markup the renderer puts into
  the panel is \<open>grouped_results\<close>. When each of the three arrays is absent or empty
  this is the one ``nothing found'' placeholder; otherwise it is the block of the
  orders, then that of the customers, then that of the products, where an absent or
  empty array has no block and any other array has its heading followed by one link
  row per item in the order of the array (\<open>category_block\<close>), each row a link to
  the item's \<open>url\<close> with its title and its \<open>meta\<close> text, or none
  (\<open>link_row\<close>). The statement is about the markup string; the values are put into
  it as they are.
\<close>

theorem search_results_grouped:
  \<open>innerHTML (renderSearchResults c payload) = grouped_results payload \<and>
   ((\<forall>k \<in> {asc ''orders'', asc ''customers'', asc ''products''}.
       payload k = None \<or> payload k = Some []) \<longrightarrow>
      innerHTML (renderSearchResults c payload) =
        asc ''<div class="global-search-empty">''
        @ [0x041D, 0x0456, 0x0447, 0x043E, 0x0433, 0x043E, 0x0020, 0x043D, 0x0435, 0x0020,
           0x0437, 0x043D, 0x0430, 0x0439, 0x0434, 0x0435, 0x043D, 0x043E]
        @ asc ''</div>'') \<and>
   (\<not> (\<forall>k \<in> {asc ''orders'', asc ''customers'', asc ''products''}.
       payload k = None \<or> payload k = Some []) \<longrightarrow>
      innerHTML (renderSearchResults c payload) =
        category_block
          [0x0417, 0x0430, 0x043C, 0x043E, 0x0432, 0x043B, 0x0435, 0x043D, 0x043D, 0x044F]
          (field_items payload ''orders'')
        @ category_block [0x041A, 0x043B, 0x0456, 0x0454, 0x043D, 0x0442, 0x0438]
            (field_items payload ''customers'')
        @ category_block [0x0422, 0x043E, 0x0432, 0x0430, 0x0440, 0x0438]
            (field_items payload ''products''))\<close>
proof (intro conjI impI)
  show "innerHTML (renderSearchResults c payload) = grouped_results payload"
    by (rule innerHTML_render)
next
  assume "\<forall>k \<in> {asc ''orders'', asc ''customers'', asc ''products''}.
      payload k = None \<or> payload k = Some []"
  then have "field_items payload ''orders'' = [] \<and> field_items payload ''customers'' = [] \<and>
      field_items payload ''products'' = []"
    by (simp add: field_items_Nil)
  then show \<open>innerHTML (renderSearchResults c payload) =
        asc ''<div class="global-search-empty">''
        @ [0x041D, 0x0456, 0x0447, 0x043E, 0x0433, 0x043E, 0x0020, 0x043D, 0x0435, 0x0020,
           0x0437, 0x043D, 0x0430, 0x0439, 0x0434, 0x0435, 0x043D, 0x043E]
        @ asc ''</div>''\<close>
    by (simp only: innerHTML_render grouped_results_def simp_thms if_True)
next
  assume "\<not> (\<forall>k \<in> {asc ''orders'', asc ''customers'', asc ''products''}.
      payload k = None \<or> payload k = Some [])"
  then have "\<not> (field_items payload ''orders'' = [] \<and> field_items payload ''customers'' = [] \<and>
      field_items payload ''products'' = [])"
    by (simp add: field_items_Nil)
  then show "innerHTML (renderSearchResults c payload) =
        category_block
          [0x0417, 0x0430, 0x043C, 0x043E, 0x0432, 0x043B, 0x0435, 0x043D, 0x043D, 0x044F]
          (field_items payload ''orders'')
        @ category_block [0x041A, 0x043B, 0x0456, 0x0454, 0x043D, 0x0442, 0x0438]
            (field_items payload ''customers'')
        @ category_block [0x0422, 0x043E, 0x0432, 0x0430, 0x0440, 0x0438]
            (field_items payload ''products'')"
    by (simp only: innerHTML_render grouped_results_def if_False)
qed

theorem search_results_grouped_witness:
  \<open>innerHTML (renderSearchResults (blank ''DIV'') Map.empty) =
     asc ''<div class="global-search-empty">''
     @ [0x041D, 0x0456, 0x0447, 0x043E, 0x0433, 0x043E, 0x0020, 0x043D, 0x0435, 0x0020,
        0x0437, 0x043D, 0x0430, 0x0439, 0x0434, 0x0435, 0x043D, 0x043E]
     @ asc ''</div>'' \<and>
   innerHTML (renderSearchResults (blank ''DIV'') one_order) =
     asc ''<section class="global-search-group"><div class="global-search-group-title">''
     @ [0x0417, 0x0430, 0x043C, 0x043E, 0x0432, 0x043B, 0x0435, 0x043D, 0x043D, 0x044F]
     @ asc ''</div><a class="global-search-item" href="/o/1"><span>Order 1</span><span class="global-search-meta"></span></a></section>'' \<and>
   innerHTML (renderSearchResults (blank ''DIV'') two_groups) =
     asc ''<section class="global-search-group"><div class="global-search-group-title">''
     @ [0x0417, 0x0430, 0x043C, 0x043E, 0x0432, 0x043B, 0x0435, 0x043D, 0x043D, 0x044F]
     @ asc ''</div><a class="global-search-item" href="/o/1"><span>Order 1</span><span class="global-search-meta"></span></a><a class="global-search-item" href="/o/2"><span>Order 2</span><span class="global-search-meta"></span></a></section>''
     @ asc ''<section class="global-search-group"><div class="global-search-group-title">''
     @ [0x0422, 0x043E, 0x0432, 0x0430, 0x0440, 0x0438]
     @ asc ''</div><a class="global-search-item" href="/p/9"><span>Mug</span><span class="global-search-meta">SKU 9</span></a></section>''\<close>
proof -
  have k: "asc ''customers'' \<noteq> asc ''orders''" "asc ''products'' \<noteq> asc ''orders''"
    "asc ''products'' \<noteq> asc ''customers''"
    by (simp_all add: asc_def)
  have e: "\<forall>k \<in> {asc ''orders'', asc ''customers'', asc ''products''}.
      Map.empty k = None \<or> Map.empty k = Some ([] :: item list)"
    by simp
  have o: "\<not> (\<forall>k \<in> {asc ''orders'', asc ''customers'', asc ''products''}.
      one_order k = None \<or> one_order k = Some [])"
    by (simp add: one_order_def)
  have t: "\<not> (\<forall>k \<in> {asc ''orders'', asc ''customers'', asc ''products''}.
      two_groups k = None \<or> two_groups k = Some [])"
    by (simp add: two_groups_def k k [symmetric])
  have fo: "field_items one_order ''orders'' =
        [\<lparr>url = asc ''/o/1'', title = asc ''Order 1'', meta = None\<rparr>]"
    "field_items one_order ''customers'' = []" "field_items one_order ''products'' = []"
    by (simp_all add: field_items_def one_order_def k k [symmetric])
  have ft: "field_items two_groups ''orders'' =
        [\<lparr>url = asc ''/o/1'', title = asc ''Order 1'', meta = None\<rparr>,
         \<lparr>url = asc ''/o/2'', title = asc ''Order 2'', meta = Some []\<rparr>]"
    "field_items two_groups ''customers'' = []"
    "field_items two_groups ''products'' =
        [\<lparr>url = asc ''/p/9'', title = asc ''Mug'', meta = Some (asc ''SKU 9'')\<rparr>]"
    by (simp_all add: field_items_def two_groups_def k k [symmetric])
  note none = search_results_grouped [of "blank ''DIV''" Map.empty,
      THEN conjunct2, THEN conjunct1, THEN mp, OF e]
  note one = search_results_grouped [of "blank ''DIV''" one_order,
      THEN conjunct2, THEN conjunct2, THEN mp, OF o]
  note two = search_results_grouped [of "blank ''DIV''" two_groups,
      THEN conjunct2, THEN conjunct2, THEN mp, OF t]
  have b1: \<open>innerHTML (renderSearchResults (blank ''DIV'') one_order) =
     asc ''<section class="global-search-group"><div class="global-search-group-title">''
     @ [0x0417, 0x0430, 0x043C, 0x043E, 0x0432, 0x043B, 0x0435, 0x043D, 0x043D, 0x044F]
     @ asc ''</div><a class="global-search-item" href="/o/1"><span>Order 1</span><span class="global-search-meta"></span></a></section>''\<close>
    unfolding one fo by (simp add: category_block_def link_row_def asc_def)
  have b2: \<open>innerHTML (renderSearchResults (blank ''DIV'') two_groups) =
     asc ''<section class="global-search-group"><div class="global-search-group-title">''
     @ [0x0417, 0x0430, 0x043C, 0x043E, 0x0432, 0x043B, 0x0435, 0x043D, 0x043D, 0x044F]
     @ asc ''</div><a class="global-search-item" href="/o/1"><span>Order 1</span><span class="global-search-meta"></span></a><a class="global-search-item" href="/o/2"><span>Order 2</span><span class="global-search-meta"></span></a></section>''
     @ asc ''<section class="global-search-group"><div class="global-search-group-title">''
     @ [0x0422, 0x043E, 0x0432, 0x0430, 0x0440, 0x0438]
     @ asc ''</div><a class="global-search-item" href="/p/9"><span>Mug</span><span class="global-search-meta">SKU 9</span></a></section>''\<close>
    unfolding two ft by (simp add: category_block_def link_row_def asc_def)
  from none b1 b2 show ?thesis by simp
qed

lemma render_nothing: "fold (render_group Map.empty) groups [] = []"
  by (simp add: groups_def render_group_def items_of_def)

text \<open>
  C10: the renderer always returns the panel with \<open>hidden\<close> false, whatever the
  panel was before and whatever the response holds; for a response without any item
  it is the panel showing the placeholder, not hidden.
\<close>

theorem render_unhides_panel:
  "\<not> hidden (renderSearchResults c payload) \<and>
   \<not> hidden (renderSearchResults c Map.empty) \<and>
   innerHTML (renderSearchResults c Map.empty) = empty_placeholder"
  by (simp add: renderSearchResults_def Let_def render_nothing)

theorem render_unhides_panel_witness:
  "hidden ((blank ''DIV'')\<lparr>hidden := True\<rparr>) \<and>
   \<not> hidden (renderSearchResults ((blank ''DIV'')\<lparr>hidden := True\<rparr>) one_order) \<and>
   \<not> hidden (renderSearchResults ((blank ''DIV'')\<lparr>hidden := True\<rparr>) Map.empty)"
  using render_unhides_panel [of "(blank ''DIV'')\<lparr>hidden := True\<rparr>" one_order]
  by simp

section \<open>Properties of the global search\<close>

lemma length_asc: "length (asc s) = length s"
  by (simp add: asc_def)

text \<open>
  The second half of the callback never lets an exception out, and it always leaves
  the panel shown.
\<close>

lemma callback_settled_returns:
  "\<exists>p'. callback_settled outcome p = Inr p' \<and> \<not> hidden p'"
  by (cases outcome)
    (auto simp: callback_settled_def search_try_def search_catch_def renderSearchResults_def
      Let_def split: body.splits)

lemma fold_callbacks_requests:
  "requests (fold (\<lambda>(h, at, q) s'. completed s' (callback_start q s')) due s) =
     requests s @ concat (map (issued (endpoint s)) due)"
proof (induction due arbitrary: s)
  case Nil
  show ?case by simp
next
  case (Cons t due)
  obtain h at q where t: "t = (h, at, q)" by (cases t)
  let ?s = "completed s (callback_start q s)"
  have r: "requests ?s = requests s @ issued (endpoint s) t"
    and e: "endpoint ?s = endpoint s"
    by (simp_all add: t issued_def completed_def callback_start_def split: sum.splits)
  have "fold (\<lambda>(h, at, q) s'. completed s' (callback_start q s')) (t # due) s =
      fold (\<lambda>(h, at, q) s'. completed s' (callback_start q s')) due ?s"
    by (simp add: t)
  then show ?case
    by (simp only: Cons.IH [of ?s] r e) simp
qed

lemma wait_requests:
  "requests (wait d s) =
     requests s @
     concat (map (issued (endpoint s)) (filter (\<lambda>(h, at, q). at \<le> now s + d) (timers s)))"
  by (simp add: wait_def Let_def fold_callbacks_requests)

lemma settle_fields:
  "requests (settle outcome s) = requests s \<and> timers (settle outcome s) = timers s \<and>
   timer (settle outcome s) = timer s \<and> now (settle outcome s) = now s \<and>
   endpoint (settle outcome s) = endpoint s"
  by (simp add: settle_def callback_settled_def split: sum.splits)




subsection \<open>Debouncing\<close>

lemma clearTimeout_inv: "timers_inv s \<Longrightarrow> clearTimeout (timer s) (timers s) = []"
proof (cases "timer s")
  case None
  assume "timers_inv s"
  with None have "timers s = []" by (cases "timers s") (auto simp: timers_inv_def)
  with None show ?thesis by (simp add: clearTimeout_def)
next
  case (Some i)
  assume "timers_inv s"
  with Some have "\<forall>t \<in> set (timers s). fst t = i" by (auto simp: timers_inv_def)
  with Some show ?thesis by (simp add: clearTimeout_def filter_empty_conv)
qed

lemma on_input_short:
  "timers_inv s \<Longrightarrow> length (trim v) < 2 \<Longrightarrow>
   on_input v s = s\<lparr>timers := [], panel := (panel s)\<lparr>hidden := True, innerHTML := []\<rparr>\<rparr>"
  by (simp add: on_input_def Let_def clearTimeout_inv)

lemma on_input_long:
  "timers_inv s \<Longrightarrow> 2 \<le> length (trim v) \<Longrightarrow>
   on_input v s =
     s\<lparr>timers := [(next_handle s, now s + 180, trim v)], timer := Some (next_handle s),
       next_handle := Suc (next_handle s)\<rparr>"
  by (simp add: on_input_def Let_def clearTimeout_inv)

lemma on_input_requests:
  "requests (on_input v s) = requests s \<and> in_flight (on_input v s) = in_flight s \<and>
   endpoint (on_input v s) = endpoint s"
  by (simp add: on_input_def Let_def)

lemma callback_start_fields:
  "timers (completed s (callback_start q s)) = timers s \<and>
   timer (completed s (callback_start q s)) = timer s \<and>
   now (completed s (callback_start q s)) = now s \<and>
   endpoint (completed s (callback_start q s)) = endpoint s"
  by (simp add: completed_def callback_start_def split: sum.splits)

lemma fold_callbacks_fields:
  "timers (fold (\<lambda>(h, at, q) s'. completed s' (callback_start q s')) due s) = timers s \<and>
   timer (fold (\<lambda>(h, at, q) s'. completed s' (callback_start q s')) due s) = timer s \<and>
   now (fold (\<lambda>(h, at, q) s'. completed s' (callback_start q s')) due s) = now s \<and>
   endpoint (fold (\<lambda>(h, at, q) s'. completed s' (callback_start q s')) due s) = endpoint s"
  by (induction due arbitrary: s) (simp_all add: callback_start_fields split: prod.splits)

lemma wait_fields:
  "timers (wait d s) = filter (\<lambda>(h, at, q). \<not> at \<le> now s + d) (timers s) \<and>
   timer (wait d s) = timer s \<and> now (wait d s) = now s + d \<and> endpoint (wait d s) = endpoint s"
  by (simp add: wait_def Let_def fold_callbacks_fields)

lemma step_endpoint: "endpoint (step e s) = endpoint s"
  by (cases e)
    (simp_all add: on_input_requests wait_fields settle_def callback_settled_def
      document_click_def document_keydown_def split: sum.splits)

lemma run_endpoint: "endpoint (run s evs) = endpoint s"
  unfolding run_def by (induction evs arbitrary: s) (simp_all add: step_endpoint)

lemma run_append: "run s (a @ b) = run (run s a) b"
  by (simp add: run_def)

lemma pending_ok_timers_inv: "pending_ok s \<Longrightarrow> timers_inv s"
  by (auto simp: pending_ok_def timers_inv_def split: list.splits)

lemma pending_ok_init: "pending_ok (init_search ep p)"
  by (simp add: pending_ok_def init_search_def)

lemma on_input_pending: "pending_ok s \<Longrightarrow> pending_ok (on_input v s)"
  by (cases "length (trim v) < 2")
    (simp_all add: on_input_short on_input_long pending_ok_timers_inv pending_ok_def)

lemma wait_effect:
  "requests (wait d s) = requests s @ concat (map (issued (endpoint s)) (filter (due_by (now s + d)) (timers s))) \<and>
   timers (wait d s) = filter (\<lambda>x. \<not> due_by (now s + d) x) (timers s) \<and>
   timer (wait d s) = timer s \<and> now (wait d s) = now s + d \<and> endpoint (wait d s) = endpoint s"
proof -
  have a: "(\<lambda>(h, at, q). at \<le> now s + d) = due_by (now s + d)"
    by (auto simp: due_by_def fun_eq_iff)
  have b: "(\<lambda>(h, at, q). \<not> at \<le> now s + d) = (\<lambda>x. \<not> due_by (now s + d) x)"
    by (auto simp: due_by_def fun_eq_iff)
  show ?thesis
    using wait_requests [of d s] wait_fields [of d s] by (simp add: a b)
qed

lemma pending_not_due: "pending_ok s \<Longrightarrow> filter (due_by (now s)) (timers s) = []"
  by (auto simp: pending_ok_def due_by_def split: list.splits)

lemma pending_keep: "pending_ok s \<Longrightarrow> filter (\<lambda>x. \<not> due_by (now s) x) (timers s) = timers s"
  by (auto simp: pending_ok_def due_by_def split: list.splits)

lemma quiet_effect:
  assumes "\<not> is_input e" and "pending_ok s"
  shows "requests (step e s) =
           requests s @
           concat (map (issued (endpoint s)) (filter (due_by (now s + elapsed [e])) (timers s))) \<and>
         timers (step e s) = filter (\<lambda>x. \<not> due_by (now s + elapsed [e]) x) (timers s) \<and>
         timer (step e s) = timer s \<and> now (step e s) = now s + elapsed [e] \<and>
         endpoint (step e s) = endpoint s"
proof (cases e)
  case (Input v)
  with assms show ?thesis by simp
next
  case (Wait d)
  then show ?thesis using wait_effect [of d s] by simp
next
  case (Settle outcome)
  then show ?thesis
    using settle_fields [of outcome s] pending_not_due [OF assms(2)] pending_keep [OF assms(2)]
    by simp
next
  case (Click inside)
  then show ?thesis
    using pending_not_due [OF assms(2)] pending_keep [OF assms(2)]
    by (simp add: document_click_def)
next
  case (Keydown k)
  then show ?thesis
    using pending_not_due [OF assms(2)] pending_keep [OF assms(2)]
    by (simp add: document_keydown_def)
qed

lemma quiet_pending:
  assumes "\<not> is_input e" and "pending_ok s"
  shows "pending_ok (step e s)"
proof -
  note q = quiet_effect [OF assms]
  from assms(2) show ?thesis
    unfolding pending_ok_def [of "step e s"]
    by (cases "timers s") (auto simp: q pending_ok_def due_by_def split: list.splits)
qed

lemma step_pending: "pending_ok s \<Longrightarrow> pending_ok (step e s)"
  by (cases "is_input e") (auto simp: quiet_pending on_input_pending elim: is_input.elims)

lemma run_pending: "pending_ok s \<Longrightarrow> pending_ok (run s evs)"
  unfolding run_def by (induction evs arbitrary: s) (simp_all add: step_pending)

lemma elapsed_Cons: "elapsed (e # evs) = elapsed [e] + elapsed evs"
  by (cases e) simp_all

lemma pause_effect:
  assumes "pause p" and "pending_ok s"
  shows "requests (run s p) =
           requests s @
           concat (map (issued (endpoint s)) (filter (due_by (now s + elapsed p)) (timers s))) \<and>
         timers (run s p) = filter (\<lambda>x. \<not> due_by (now s + elapsed p) x) (timers s) \<and>
         timer (run s p) = timer s \<and> now (run s p) = now s + elapsed p \<and>
         endpoint (run s p) = endpoint s"
  using assms
proof (induction p arbitrary: s)
  case Nil
  then show ?case
    by (simp add: run_def pending_not_due pending_keep)
next
  case (Cons e p)
  from Cons.prems(1) have e: "\<not> is_input e" and p: "pause p"
    by (simp_all add: pause_def)
  note q = quiet_effect [OF e Cons.prems(2)]
  note ih = Cons.IH [OF p quiet_pending [OF e Cons.prems(2)]]
  have r: "run s (e # p) = run (step e s) p"
    by (simp add: run_def)
  from Cons.prems(2) show ?case
    unfolding r elapsed_Cons [of e p]
    by (cases "timers s") (auto simp: ih q pending_ok_def due_by_def split: list.splits)
qed


lemma on_input_effect:
  assumes "pending_ok s"
  shows "requests (on_input v s) = requests s \<and> now (on_input v s) = now s \<and>
         endpoint (on_input v s) = endpoint s \<and>
         timers (on_input v s) =
           (if length (trim v) < 2 then [] else [(next_handle s, now s + 180, trim v)])"
  using pending_ok_timers_inv [OF assms]
  by (cases "length (trim v) < 2") (simp_all add: on_input_short on_input_long)

lemma input_pause_effect:
  assumes "pending_ok s" and "pause p"
  shows "requests (run s (Input v # p)) =
           requests s @
           (if 2 \<le> length (trim v) \<and> 180 \<le> elapsed p
            then issued (endpoint s) (next_handle s, now s + 180, trim v) else []) \<and>
         (180 \<le> elapsed p \<longrightarrow> timers (run s (Input v # p)) = []) \<and>
         endpoint (run s (Input v # p)) = endpoint s"
proof -
  have r: "run s (Input v # p) = run (on_input v s) p"
    by (simp add: run_def)
  note i = on_input_effect [OF assms(1), of v]
  note e = pause_effect [OF assms(2) on_input_pending [OF assms(1), of v]]
  show ?thesis
    unfolding r by (simp add: e i due_by_def)
qed

lemma rapid_burst_quiet:
  "rapid b \<Longrightarrow> pending_ok s \<Longrightarrow>
   pending_ok (run s (burst b)) \<and> requests (run s (burst b)) = requests s \<and>
   endpoint (run s (burst b)) = endpoint s"
proof (induction b arbitrary: s)
  case Nil
  then show ?case by (simp add: run_def)
next
  case (Cons vp b)
  obtain v p where vp: "vp = (v, p)" by (cases vp)
  from Cons.prems(1) have p: "pause p" "elapsed p < 180" and b: "rapid b"
    by (simp_all add: rapid_def vp)
  let ?s = "run s (Input v # p)"
  have r: "run s (burst (vp # b)) = run ?s (burst b)"
    by (simp add: vp run_def)
  have ok: "pending_ok ?s"
    by (rule run_pending [OF Cons.prems(2)])
  from input_pause_effect [OF Cons.prems(2) p(1), of v] p(2)
  have same: "requests ?s = requests s" "endpoint ?s = endpoint s"
    by simp_all
  from Cons.IH [OF b ok] show ?case
    by (simp add: r same)
qed

text \<open>\<open>encodeURIComponent\<close> returns exactly on the well-formed strings.\<close>

lemma unescaped_not_surrogate: "unescaped c \<Longrightarrow> \<not> lead_surrogate c \<and> \<not> trail_surrogate c"
  by (auto simp: unescaped_def lead_surrogate_def trail_surrogate_def word_le_nat_alt)

lemma encodeURIComponent_returns_iff:
  "(\<exists>q. encodeURIComponent s = Inr q) \<longleftrightarrow> isWellFormed s"
proof (induction s rule: encodeURIComponent.induct)
  case 1
  show ?case by simp
next
  case (2 c)
  show ?case using unescaped_not_surrogate [of c] by auto
next
  case (3 c d s)
  show ?case
  proof (cases "unescaped c")
    case True
    with 3(1) unescaped_not_surrogate [of c] show ?thesis
      by (cases "encodeURIComponent (d # s)") auto
  next
    case False
    show ?thesis
    proof (cases "lead_surrogate c")
      case True
      with False 3(2) show ?thesis
        by (cases "encodeURIComponent s") auto
    next
      case nl: False
      with False 3(3) show ?thesis
        by (cases "encodeURIComponent (d # s)") auto
    qed
  qed
qed

text \<open>
  C2, as stated, fails: the query of the two code units \<open>D800\<close> (a lead
  surrogate with no trail) and \<open>a\<close> has trimmed length 2, yet once the debounce
  window has passed \<open>encodeURIComponent\<close> throws inside the \<open>try\<close> block before
  \<open>fetch\<close> is reached: no request is issued, then or later, and the panel shows
  the error placeholder.
\<close>

theorem debounced_search_counterexample:
  "length (trim [0xD800, 0x61]) = 2 \<and>
   requests (run search_page [Input [0xD800, 0x61], Wait 180]) = [] \<and>
   requests (run search_page [Input [0xD800, 0x61], Wait 180, Wait 1000]) = [] \<and>
   innerHTML (panel (run search_page [Input [0xD800, 0x61], Wait 180])) = error_placeholder"
proof -
  have t: "trim [0xD800, 0x61] = [0xD800, 0x61]"
    by (simp add: trim_def white_space_def)
  have e: "encodeURIComponent [0xD800, 0x61] = Inl URIError"
    by (simp add: unescaped_def lead_surrogate_def trail_surrogate_def)
  show ?thesis
    by (simp add: run_def on_input_def wait_def Let_def t e clearTimeout_def callback_start_def
        completed_def search_page_def init_search_def search_catch_def
        unescaped_def lead_surrogate_def trail_surrogate_def)
qed

text \<open>
  C2, amended. In any state \<open>s\<close> the overlay can reach: an input event whose
  trimmed query is shorter than 2 hides the panel, clears it, issues no request and
  leaves no timeout pending. After a rapid burst of input events followed by a last
  input event and a pause \<open>p\<close> (time passing, requests ending, clicks and key
  presses, in any order): if the last trimmed query is shorter than 2, no request has
  been issued, however long the pause; if it has length at least 2 and is well
  formed, so that \<open>encodeURIComponent\<close> returns \<open>q\<close> for it, then no request has
  been issued while less than 180 ms have passed, and exactly one, for the URL with
  \<open>q\<close>, once 180 ms have passed, with no timeout left pending; and if
  \<open>encodeURIComponent\<close> throws for it, no request has been issued.
\<close>

theorem debounced_search:
  assumes "s = run (init_search ep p0) pre"
  shows "(length (trim v) < 2 \<longrightarrow>
            hidden (panel (step (Input v) s)) \<and>
            innerHTML (panel (step (Input v) s)) = [] \<and>
            requests (step (Input v) s) = requests s \<and>
            timers (step (Input v) s) = []) \<and>
         (rapid b \<and> pause p \<and> length (trim v) < 2 \<longrightarrow>
            requests (run s (burst b @ Input v # p)) = requests s) \<and>
         (rapid b \<and> pause p \<and> 2 \<le> length (trim v) \<and> encodeURIComponent (trim v) = Inr q \<longrightarrow>
            (elapsed p < 180 \<longrightarrow>
               requests (run s (burst b @ Input v # p)) = requests s) \<and>
            (180 \<le> elapsed p \<longrightarrow>
               requests (run s (burst b @ Input v # p)) = requests s @ [search_url ep q] \<and>
               timers (run s (burst b @ Input v # p)) = [])) \<and>
         (rapid b \<and> pause p \<and> encodeURIComponent (trim v) = Inl x \<longrightarrow>
            requests (run s (burst b @ Input v # p)) = requests s)"
proof -
  have ok: "pending_ok s"
    by (simp add: assms run_pending pending_ok_init)
  have ep: "endpoint s = ep"
    by (simp add: assms run_endpoint init_search_def)
  have short: "length (trim v) < 2 \<Longrightarrow>
      hidden (panel (step (Input v) s)) \<and> innerHTML (panel (step (Input v) s)) = [] \<and>
      requests (step (Input v) s) = requests s \<and> timers (step (Input v) s) = []"
    using pending_ok_timers_inv [OF ok] by (simp add: on_input_short)
  have after: "rapid b \<Longrightarrow> pause p \<Longrightarrow>
      requests (run s (burst b @ Input v # p)) =
        requests s @
        (if 2 \<le> length (trim v) \<and> 180 \<le> elapsed p
         then issued ep (next_handle (run s (burst b)), now (run s (burst b)) + 180, trim v)
         else []) \<and>
      (180 \<le> elapsed p \<longrightarrow> timers (run s (burst b @ Input v # p)) = [])"
  proof -
    assume b: "rapid b" and p: "pause p"
    note q = rapid_burst_quiet [OF b ok]
    from input_pause_effect [of "run s (burst b)" p v] q p ep
    show ?thesis by (simp add: run_append)
  qed
  have enc: "encodeURIComponent (trim v) = Inr q \<Longrightarrow> issued ep (h, at, trim v) = [search_url ep q]"
    for h at
    by (simp add: issued_def)
  have thrown: "encodeURIComponent (trim v) = Inl x \<Longrightarrow> issued ep (h, at, trim v) = []"
    for h at
    by (simp add: issued_def)
  from short after enc thrown show ?thesis
    by (auto simp del: burst.simps)
qed

theorem debounced_search_witness:
  "hidden (panel (step (Input (asc '' a '')) search_page)) \<and>
   requests (run search_page
      (burst [(asc ''ab'', [Wait 50]), (asc ''abc'', [Wait 60, Keydown (asc ''Shift''), Wait 40])]
       @ Input (asc ''abc d '') # [Wait 100, Click True, Wait 79])) = [] \<and>
   requests (run search_page
      (burst [(asc ''ab'', [Wait 50]), (asc ''abc'', [Wait 60, Keydown (asc ''Shift''), Wait 40])]
       @ Input (asc ''abc d '') # [Wait 100, Click True, Wait 80])) =
     [asc ''/search/?q=abc%20d'']"
proof -
  let ?b = "[(asc ''ab'', [Wait 50]), (asc ''abc'', [Wait 60, Keydown (asc ''Shift''), Wait 40])]"
  have s: "search_page = run (init_search (Some (asc ''/search/'')) (blank ''DIV'')) []"
    by (simp add: search_page_def run_def)
  have r: "requests search_page = []"
    by (simp add: search_page_def init_search_def)
  have b: "rapid ?b"
    by (simp add: rapid_def pause_def)
  have p: "pause [Wait 100, Click True, Wait 79]" "pause [Wait 100, Click True, Wait 80]"
    by (simp_all add: pause_def)
  have t1: "trim (asc '' a '') = asc ''a''"
    by (simp add: trim_def white_space_def asc_def)
  have t2: "trim (asc ''abc d '') = asc ''abc d''"
    by (simp add: trim_def white_space_def asc_def)
  have e: "encodeURIComponent (asc ''abc d'') = Inr (asc ''abc%20d'')"
    by (simp add: asc_def unescaped_def lead_surrogate_def trail_surrogate_def percent_def
        utf8_def hex_digit_def)
  have u: "search_url (Some (asc ''/search/'')) (asc ''abc%20d'') = asc ''/search/?q=abc%20d''"
    by (simp add: search_url_def asc_def)
  from debounced_search [OF s, where v = "asc '' a ''"]
  have "hidden (panel (step (Input (asc '' a '')) search_page))"
    by (simp add: t1 length_asc)
  moreover
  from debounced_search [OF s, where v = "asc ''abc d ''" and b = ?b
      and q = "asc ''abc%20d''" and p = "[Wait 100, Click True, Wait 79]"] b p
  have "requests (run search_page
      (burst ?b @ Input (asc ''abc d '') # [Wait 100, Click True, Wait 79])) = []"
    by (simp add: t2 e length_asc r del: burst.simps)
  moreover
  from debounced_search [OF s, where v = "asc ''abc d ''" and b = ?b
      and q = "asc ''abc%20d''" and p = "[Wait 100, Click True, Wait 80]"] b p
  have "requests (run search_page
      (burst ?b @ Input (asc ''abc d '') # [Wait 100, Click True, Wait 80])) =
     [asc ''/search/?q=abc%20d'']"
    by (simp add: t2 e length_asc r u del: burst.simps)
  ultimately show ?thesis by simp
qed

end
